theory Spec2Isabelle
  imports Main
begin

section \<open>Data model (types.ts)\<close>

text \<open>
  A string of the host language is a sequence of UTF-16 code units, here natural numbers
  (a code unit is below 65536; a larger number is no white space and no letter). The
  literals of the program are ASCII and are written with \<open>js\<close>.
\<close>

type_synonym jsstring = "nat list"

definition js :: "string \<Rightarrow> jsstring" where
  "js s = map of_char s"

text \<open>
  The interfaces of \<^verbatim>\<open>types.ts\<close> as records. Three field names are renamed:
  \<^verbatim>\<open>Ingredient.name\<close> is \<open>ing_name\<close> (a record field is a global constant, and
  \<open>name\<close> is kept for \<^verbatim>\<open>Recipe.name\<close>); \<^verbatim>\<open>ChatMessage.text\<close> and
  \<^verbatim>\<open>ChatMessage.translations\<close> are \<open>msg_text\<close> and \<open>msg_translations\<close>
  (both words are reserved by the prover).
  Optional fields (\<^verbatim>\<open>cookTime?\<close>, \<^verbatim>\<open>translations?\<close>, \<^verbatim>\<open>groundingChunks?\<close>) are
  options.
\<close>

record Ingredient =
  ing_name :: jsstring
  isAvailable :: bool

datatype Difficulty = Easy | Medium | Hard

record Recipe =
  name :: jsstring
  difficulty :: Difficulty
  prepTime :: nat
  cookTime :: "nat option"
  calories :: nat
  dietaryTags :: "jsstring list"
  ingredients :: "Ingredient list"
  instructions :: "jsstring list"

record GroundingChunk =
  uri :: jsstring
  title :: jsstring

datatype Role = user | model

record ChatMessage =
  role :: Role
  msg_text :: jsstring
  msg_translations :: "(jsstring \<rightharpoonup> jsstring) option"
  groundingChunks :: "GroundingChunk list option"

datatype View = Upload | Recipes | Cooking

datatype Tab = TabRecipes | TabShoppingList | TabFavorites

datatype File = File (file_data: jsstring) (file_type: jsstring)

section \<open>String primitives of the host language\<close>

text \<open>
  \<^verbatim>\<open>String.prototype.toLowerCase\<close>. On a string of ASCII code units it maps the
  letters A to Z to a to z and nothing else. On any other string the result is given by
  the case tables and the context rules of Unicode, which belong to the host: they are
  the parameter \<open>hostLower\<close>.
\<close>

definition toLowerCase_unit :: "nat \<Rightarrow> nat" where
  "toLowerCase_unit u = (if 65 \<le> u \<and> u \<le> 90 then u + 32 else u)"

definition toLowerCase :: "(jsstring \<Rightarrow> jsstring) \<Rightarrow> jsstring \<Rightarrow> jsstring" where
  "toLowerCase hostLower s =
     (if list_all (\<lambda>u. u < 128) s then map toLowerCase_unit s else hostLower s)"

text \<open>
  \<^verbatim>\<open>String.prototype.trim\<close> removes white space and line terminators at both ends:
  tab, line feed, vertical tab, form feed, carriage return, space, no-break space, the
  other space separators of Unicode (U+1680, U+2000 to U+200A, U+202F, U+205F, U+3000),
  the line and paragraph separators (U+2028, U+2029) and the byte order mark (U+FEFF).
\<close>

definition is_space :: "nat \<Rightarrow> bool" where
  "is_space u =
     (u \<in> set [0x09, 0x0A, 0x0B, 0x0C, 0x0D, 0x20, 0xA0, 0x1680, 0x2028, 0x2029, 0x202F,
                0x205F, 0x3000, 0xFEFF]
      \<or> (0x2000 \<le> u \<and> u \<le> 0x200A))"

definition trim :: "jsstring \<Rightarrow> jsstring" where
  "trim s = rev (dropWhile is_space (rev (dropWhile is_space s)))"

text \<open>\<^verbatim>\<open>s.startsWith(p)\<close>, \<^verbatim>\<open>s.endsWith(p)\<close> and \<^verbatim>\<open>s.includes(q)\<close> (as \<open>includesStr\<close>):
  comparisons of code units.\<close>

fun startsWith :: "jsstring \<Rightarrow> jsstring \<Rightarrow> bool" where
  "startsWith s [] = True"
| "startsWith [] (p # ps) = False"
| "startsWith (c # cs) (p # ps) = (c = p \<and> startsWith cs ps)"

definition endsWith :: "jsstring \<Rightarrow> jsstring \<Rightarrow> bool" where
  "endsWith s p = startsWith (rev s) (rev p)"

fun includesStr :: "jsstring \<Rightarrow> jsstring \<Rightarrow> bool" where
  "includesStr [] q = (q = [])"
| "includesStr (c # cs) q = (startsWith (c # cs) q \<or> includesStr cs q)"

text \<open>\<^verbatim>\<open>s.slice(a, -b)\<close> for non-negative \<open>a\<close> and \<open>b\<close>, counted in code units: the
  end index is \<open>max (length s - b) 0\<close>, and the result is empty when the end is not after
  the start.\<close>

definition slice_neg_end :: "jsstring \<Rightarrow> nat \<Rightarrow> nat \<Rightarrow> jsstring" where
  "slice_neg_end s a b = drop a (take (length s - b) s)"

section \<open>Application state (App.tsx)\<close>

record app_state =
  view :: View
  activeTab :: Tab
  uploadedImage :: "File option"
  recipes :: "Recipe list"
  selectedRecipe :: "Recipe option"
  shoppingList :: "jsstring list"
  activeFilters :: "jsstring list"
  isLoading :: bool
  error :: "jsstring option"
  searchQuery :: jsstring
  favoriteRecipes :: "Recipe list"

text \<open>The \<^verbatim>\<open>useState\<close> initial values; the favourites come from local storage.\<close>

definition initial_state :: "Recipe list \<Rightarrow> app_state" where
  "initial_state savedFavorites =
     \<lparr>view = Upload, activeTab = TabRecipes, uploadedImage = None, recipes = [],
      selectedRecipe = None, shoppingList = [], activeFilters = [], isLoading = False,
      error = None, searchQuery = [], favoriteRecipes = savedFavorites\<rparr>"

subsection \<open>Recipe collection: source, dietary filter, search\<close>

definition sourceRecipes :: "app_state \<Rightarrow> Recipe list" where
  "sourceRecipes s = (if activeTab s = TabFavorites then favoriteRecipes s else recipes s)"

text \<open>The first step of \<^verbatim>\<open>filteredRecipes\<close>: \<^verbatim>\<open>every\<close> is \<open>list_all\<close>,
  \<^verbatim>\<open>Array.includes\<close> is list membership.\<close>

definition dietFiltered :: "jsstring list \<Rightarrow> Recipe list \<Rightarrow> Recipe list" where
  "dietFiltered filters src =
     (if length filters = 0 then src
      else filter (\<lambda>recipe. list_all (\<lambda>f. f \<in> set (dietaryTags recipe)) filters) src)"

definition searchMatch :: "(jsstring \<Rightarrow> jsstring) \<Rightarrow> jsstring \<Rightarrow> Recipe \<Rightarrow> bool" where
  "searchMatch hostLower query recipe =
     (let nameMatch = includesStr (toLowerCase hostLower (name recipe)) query;
          ingredientMatch =
            list_ex (\<lambda>ing. includesStr (toLowerCase hostLower (ing_name ing)) query)
              (ingredients recipe)
      in nameMatch \<or> ingredientMatch)"

definition filteredRecipesOf :: "(jsstring \<Rightarrow> jsstring) \<Rightarrow> jsstring list \<Rightarrow> jsstring \<Rightarrow> Recipe list \<Rightarrow> Recipe list" where
  "filteredRecipesOf hostLower filters q src =
     (let dietF = dietFiltered filters src;
          query = trim (toLowerCase hostLower q)
      in if query = [] then dietF else filter (searchMatch hostLower query) dietF)"

definition filteredRecipes :: "(jsstring \<Rightarrow> jsstring) \<Rightarrow> app_state \<Rightarrow> Recipe list" where
  "filteredRecipes hostLower s =
     filteredRecipesOf hostLower (activeFilters s) (searchQuery s) (sourceRecipes s)"

subsection \<open>Favourites and shopping list\<close>

text \<open>The state updaters of \<^verbatim>\<open>handleToggleFavorite\<close>, \<^verbatim>\<open>addToShoppingList\<close> and
  \<^verbatim>\<open>removeFromShoppingList\<close>, as functions of the previous list.\<close>

definition toggleFavorite :: "Recipe list \<Rightarrow> Recipe \<Rightarrow> Recipe list" where
  "toggleFavorite prev recipeToToggle =
     (let isFavorited = list_ex (\<lambda>recipe. name recipe = name recipeToToggle) prev
      in if isFavorited then filter (\<lambda>recipe. name recipe \<noteq> name recipeToToggle) prev
         else prev @ [recipeToToggle])"

definition handleToggleFavorite :: "Recipe \<Rightarrow> app_state \<Rightarrow> app_state" where
  "handleToggleFavorite recipeToToggle s =
     s\<lparr>favoriteRecipes := toggleFavorite (favoriteRecipes s) recipeToToggle\<rparr>"

definition addItems :: "jsstring list \<Rightarrow> jsstring list \<Rightarrow> jsstring list" where
  "addItems prev items =
     (let newItems = filter (\<lambda>item. item \<notin> set prev) items in prev @ newItems)"

definition addToShoppingList :: "jsstring list \<Rightarrow> app_state \<Rightarrow> app_state" where
  "addToShoppingList items s = s\<lparr>shoppingList := addItems (shoppingList s) items\<rparr>"

definition removeFromShoppingList :: "jsstring \<Rightarrow> app_state \<Rightarrow> app_state" where
  "removeFromShoppingList itemToRemove s =
     s\<lparr>shoppingList := filter (\<lambda>item. item \<noteq> itemToRemove) (shoppingList s)\<rparr>"

subsection \<open>Navigation\<close>

definition handleSelectRecipe :: "Recipe \<Rightarrow> app_state \<Rightarrow> app_state" where
  "handleSelectRecipe recipe s = s\<lparr>selectedRecipe := Some recipe, view := Cooking\<rparr>"

definition handleBackToRecipes :: "app_state \<Rightarrow> app_state" where
  "handleBackToRecipes s = s\<lparr>selectedRecipe := None, view := Recipes\<rparr>"

definition resetApp :: "app_state \<Rightarrow> app_state" where
  "resetApp s =
     s\<lparr>view := Upload, uploadedImage := None, recipes := [], selectedRecipe := None,
       error := None, searchQuery := []\<rparr>"

text \<open>
  \<^verbatim>\<open>handleImageUpload\<close> suspends at the call of the analysis. The part before the
  \<^verbatim>\<open>await\<close> and the part after it are two steps; the second takes the outcome of
  \<^verbatim>\<open>analyzeFridgeAndSuggestRecipes\<close>: the message of the error thrown (\<open>Inl\<close>) or
  the recipes (\<open>Inr\<close>).
\<close>

definition handleImageUpload_begin :: "File \<Rightarrow> app_state \<Rightarrow> app_state" where
  "handleImageUpload_begin file s =
     s\<lparr>uploadedImage := Some file, isLoading := True, error := None, recipes := []\<rparr>"

definition handleImageUpload_end :: "jsstring + Recipe list \<Rightarrow> app_state \<Rightarrow> app_state" where
  "handleImageUpload_end outcome s =
     (case outcome of
        Inr suggestedRecipes \<Rightarrow>
          s\<lparr>recipes := suggestedRecipes, view := Recipes, activeTab := TabRecipes,
            isLoading := False\<rparr>
      | Inl msg \<Rightarrow> s\<lparr>error := Some msg, view := Upload, isLoading := False\<rparr>)"

definition handleImageUpload :: "File \<Rightarrow> jsstring + Recipe list \<Rightarrow> app_state \<Rightarrow> app_state" where
  "handleImageUpload file outcome s = handleImageUpload_end outcome (handleImageUpload_begin file s)"

definition handleFilterChange :: "jsstring \<Rightarrow> app_state \<Rightarrow> app_state" where
  "handleFilterChange f s =
     s\<lparr>activeFilters :=
         (if f \<in> set (activeFilters s) then filter (\<lambda>g. g \<noteq> f) (activeFilters s)
          else activeFilters s @ [f])\<rparr>"

definition handleClearFilters :: "app_state \<Rightarrow> app_state" where
  "handleClearFilters s = s\<lparr>activeFilters := []\<rparr>"

text \<open>The operations the interface exposes, as events, and the states they reach.\<close>

datatype event =
    SelectRecipe Recipe
  | BackToRecipes
  | ResetApp
  | ImageUploadBegin File
  | ImageUploadEnd "jsstring + Recipe list"
  | ToggleFavorite Recipe
  | AddToShoppingList "jsstring list"
  | RemoveFromShoppingList jsstring
  | FilterChange jsstring
  | ClearFilters
  | SetActiveTab Tab
  | SetSearchQuery jsstring

fun step :: "event \<Rightarrow> app_state \<Rightarrow> app_state" where
  "step (SelectRecipe r) s = handleSelectRecipe r s"
| "step BackToRecipes s = handleBackToRecipes s"
| "step ResetApp s = resetApp s"
| "step (ImageUploadBegin f) s = handleImageUpload_begin f s"
| "step (ImageUploadEnd out) s = handleImageUpload_end out s"
| "step (ToggleFavorite r) s = handleToggleFavorite r s"
| "step (AddToShoppingList xs) s = addToShoppingList xs s"
| "step (RemoveFromShoppingList x) s = removeFromShoppingList x s"
| "step (FilterChange f) s = handleFilterChange f s"
| "step ClearFilters s = handleClearFilters s"
| "step (SetActiveTab t) s = s\<lparr>activeTab := t\<rparr>"
| "step (SetSearchQuery q) s = s\<lparr>searchQuery := q\<rparr>"

fun run :: "event list \<Rightarrow> app_state \<Rightarrow> app_state" where
  "run [] s = s"
| "run (e # es) s = run es (step e s)"

inductive reachable :: "app_state \<Rightarrow> bool" where
  reach_init: "reachable (initial_state favs)"
| reach_step: "reachable s \<Longrightarrow> reachable (step e s)"

section \<open>Chat orchestration (App.tsx)\<close>

text \<open>The chat session is an object of the service's library: an opaque handle.\<close>

datatype Chat = ChatSession

record chat_state =
  chatSession :: "Chat option"
  chatMessages :: "ChatMessage list"
  isBotLoading :: bool
  isChatOpen :: bool

text \<open>An object literal \<^verbatim>\<open>{ role, text }\<close>: the optional fields are absent.\<close>

definition mkMessage :: "Role \<Rightarrow> jsstring \<Rightarrow> ChatMessage" where
  "mkMessage r t = \<lparr>role = r, msg_text = t, msg_translations = None, groundingChunks = None\<rparr>"

definition chat_initial :: chat_state where
  "chat_initial = \<lparr>chatSession = None, chatMessages = [], isBotLoading = False, isChatOpen = False\<rparr>"

text \<open>\<^verbatim>\<open>initChat\<close>: the argument says whether creating the session succeeded.\<close>

definition initChat :: "bool \<Rightarrow> chat_state \<Rightarrow> chat_state" where
  "initChat created s =
     (if created
      then s\<lparr>chatSession := Some ChatSession,
             chatMessages := [mkMessage model
               (js ''Hi! I'm your culinary assistant. Ask me for cooking tips, ingredient substitutions, or recipe ideas!'')]\<rparr>
      else s\<lparr>chatMessages := [mkMessage model (js ''Sorry, the chatbot could not be started.'')]\<rparr>)"

text \<open>
  One chunk of the stream: its \<^verbatim>\<open>text\<close>, and what
  \<^verbatim>\<open>chunk?.candidates?.[0]?.groundingMetadata?.groundingChunks\<close> reads from it.
  A turn of the service either rejects the call of \<^verbatim>\<open>sendMessageStream\<close>, or delivers
  chunks in order and then ends, normally or by throwing.
\<close>

record Chunk =
  chunk_text :: jsstring
  chunk_grounding :: "GroundingChunk list option"

datatype stream_end = Completes | Throws

datatype send_outcome = SendThrows | Streams "Chunk list" stream_end

text \<open>The local variables of the \<^verbatim>\<open>try\<close> block.\<close>

record send_locals =
  firstChunk :: bool
  fullResponse :: jsstring
  finalChunk :: "Chunk option"

definition locals_initial :: send_locals where
  "locals_initial = \<lparr>firstChunk = True, fullResponse = [], finalChunk = None\<rparr>"

text \<open>
  The two updaters that write to the last message. On an empty transcript
  \<^verbatim>\<open>newMessages[newMessages.length - 1]\<close> is \<^verbatim>\<open>undefined\<close> and the access
  to its field raises a \<^verbatim>\<open>TypeError\<close>: the result \<open>None\<close>.
\<close>

definition setLastText :: "jsstring \<Rightarrow> ChatMessage list \<Rightarrow> ChatMessage list option" where
  "setLastText t prev =
     (if prev = [] then None else Some (butlast prev @ [(last prev)\<lparr>msg_text := t\<rparr>]))"

definition attachGrounding :: "Chunk option \<Rightarrow> ChatMessage list \<Rightarrow> ChatMessage list option" where
  "attachGrounding fc prev =
     (case (case fc of None \<Rightarrow> None | Some c \<Rightarrow> chunk_grounding c) of
        None \<Rightarrow> Some prev
      | Some g \<Rightarrow>
          if length g > 0
          then (if prev = [] then None
                else if role (last prev) = model
                then Some (butlast prev @ [(last prev)\<lparr>groundingChunks := Some g\<rparr>])
                else Some prev)
          else Some prev)"

text \<open>The body of \<^verbatim>\<open>for await (const chunk of result)\<close>, one chunk at a time.\<close>

fun streamLoop :: "Chunk list \<Rightarrow> send_locals \<Rightarrow> chat_state \<Rightarrow> (send_locals \<times> chat_state) option" where
  "streamLoop [] l s = Some (l, s)"
| "streamLoop (chunk # rest) l s =
     (let full = fullResponse l @ chunk_text chunk;
          l1 = l\<lparr>fullResponse := full, finalChunk := Some chunk\<rparr>
      in if firstChunk l
         then streamLoop rest (l1\<lparr>firstChunk := False\<rparr>)
                (s\<lparr>chatMessages := chatMessages s @ [mkMessage model full]\<rparr>)
         else (case setLastText full (chatMessages s) of
                 None \<Rightarrow> None
               | Some newMessages \<Rightarrow> streamLoop rest l1 (s\<lparr>chatMessages := newMessages\<rparr>)))"

definition connectionApology :: jsstring where
  "connectionApology = js ''Sorry, I'm having trouble connecting right now.''"

definition catchChatError :: "chat_state \<Rightarrow> chat_state" where
  "catchChatError s =
     s\<lparr>chatMessages := chatMessages s @ [mkMessage model connectionApology]\<rparr>"

definition finallyChat :: "chat_state \<Rightarrow> chat_state" where
  "finallyChat s = s\<lparr>isBotLoading := False\<rparr>"

text \<open>The part of \<^verbatim>\<open>handleSendMessage\<close> before the first \<^verbatim>\<open>await\<close>.\<close>

definition sendBegin :: "jsstring \<Rightarrow> chat_state \<Rightarrow> chat_state" where
  "sendBegin message s =
     s\<lparr>chatMessages := chatMessages s @ [mkMessage user message], isBotLoading := True\<rparr>"

definition handleSendMessage :: "jsstring \<Rightarrow> send_outcome \<Rightarrow> chat_state \<Rightarrow> chat_state option" where
  "handleSendMessage message outcome s =
     (if chatSession s = None then Some s
      else
        let s1 = sendBegin message s in
        (case outcome of
           SendThrows \<Rightarrow> Some (finallyChat (catchChatError s1))
         | Streams chunks e \<Rightarrow>
             (case streamLoop chunks locals_initial s1 of
                None \<Rightarrow> None
              | Some (l, s2) \<Rightarrow>
                  (case e of
                     Throws \<Rightarrow> Some (finallyChat (catchChatError s2))
                   | Completes \<Rightarrow>
                       (case attachGrounding (finalChunk l) (chatMessages s2) of
                          None \<Rightarrow> None
                        | Some newMessages \<Rightarrow>
                            Some (finallyChat (s2\<lparr>chatMessages := newMessages\<rparr>)))))))"

definition askChatbot :: "jsstring \<Rightarrow> send_outcome \<Rightarrow> chat_state \<Rightarrow> chat_state option" where
  "askChatbot prompt outcome s = handleSendMessage prompt outcome (s\<lparr>isChatOpen := True\<rparr>)"

text \<open>What the chat window shows for a message:
  \<^verbatim>\<open>msg.translations?.[selectedLanguage] || msg.text\<close>.\<close>

definition lookupTranslation :: "jsstring \<Rightarrow> ChatMessage \<Rightarrow> jsstring option" where
  "lookupTranslation lang msg =
     (case msg_translations msg of None \<Rightarrow> None | Some tr \<Rightarrow> tr lang)"

definition displayedText :: "jsstring \<Rightarrow> ChatMessage \<Rightarrow> jsstring" where
  "displayedText lang msg =
     (case lookupTranslation lang msg of
        None \<Rightarrow> msg_text msg
      | Some t \<Rightarrow> if t = [] then msg_text msg else t)"

section \<open>AI response parsing (the service module)\<close>

text \<open>
  \<^verbatim>\<open>JSON.parse\<close> is a primitive of the host language and a parameter of the model: it
  returns \<open>None\<close> where it raises a \<^verbatim>\<open>SyntaxError\<close>, and otherwise tells whether the
  value is an array. The elements have the type the caller casts them to.
\<close>

datatype 'a parsed = PArray "'a list" | PNonArray

type_synonym 'a json_parse = "jsstring \<Rightarrow> 'a parsed option"

text \<open>The removal of a code fence, as both functions of the service write it.\<close>

definition stripFence :: "jsstring \<Rightarrow> jsstring" where
  "stripFence text0 =
     (let jsonText = trim text0
      in if startsWith jsonText (js ''```json'') then trim (slice_neg_end jsonText 7 3)
         else if startsWith jsonText (js ''```'') then trim (slice_neg_end jsonText 3 3)
         else jsonText)"

text \<open>
  What reaches the \<^verbatim>\<open>catch\<close> block of \<^verbatim>\<open>analyzeFridgeAndSuggestRecipes\<close>: a
  \<^verbatim>\<open>SyntaxError\<close>, another \<^verbatim>\<open>Error\<close> with its message, or a value that is no
  \<^verbatim>\<open>Error\<close>. Before the response text is read, reading the file or the request may
  throw.
\<close>

datatype thrown = ThrownSyntaxError | ThrownError jsstring | ThrownOther

datatype upstream = UpstreamThrows thrown | Responds "jsstring option"

text \<open>
  \<^verbatim>\<open>analyzeFridgeAndSuggestRecipes\<close> of the service module, in the revision that the
  components import (the one that also exports \<^verbatim>\<open>estimateCookTime\<close>): the
  \<^verbatim>\<open>try\<close> block, then the \<^verbatim>\<open>catch\<close> block. The result is the message of the
  \<^verbatim>\<open>Error\<close> thrown to the caller (\<open>Inl\<close>) or the value returned (\<open>Inr\<close>).
\<close>

definition emptyResponseMessage :: jsstring where
  "emptyResponseMessage = js ''The AI provided an empty response. This can happen if the image is unclear or the safety filters were triggered. Please try a different photo.''"

definition noRecognizableMessage :: jsstring where
  "noRecognizableMessage = js ''The AI couldn't generate recipes from the image. It might be unclear or contain no recognizable food items. Please try a clearer photo.''"

definition safetyMessage :: jsstring where
  "safetyMessage = js ''The image was blocked due to safety settings. Please try a different photo.''"

definition analyze_try :: "Recipe json_parse \<Rightarrow> upstream \<Rightarrow> thrown + Recipe parsed" where
  "analyze_try parse up =
     (case up of
        UpstreamThrows t \<Rightarrow> Inl t
      | Responds text0 \<Rightarrow>
          (case text0 of
             None \<Rightarrow> Inl (ThrownError emptyResponseMessage)
           | Some t \<Rightarrow>
               if t = [] then Inl (ThrownError emptyResponseMessage)
               else
                 let jsonText = stripFence t
                 in if \<not> startsWith jsonText (js ''['') \<or> \<not> endsWith jsonText (js '']'')
                    then Inl (ThrownError noRecognizableMessage)
                    else (case parse jsonText of
                            None \<Rightarrow> Inl ThrownSyntaxError
                          | Some v \<Rightarrow> Inr v)))"

definition analyzeFridgeAndSuggestRecipes :: "(jsstring \<Rightarrow> jsstring) \<Rightarrow> Recipe json_parse \<Rightarrow> upstream \<Rightarrow> jsstring + Recipe parsed" where
  "analyzeFridgeAndSuggestRecipes hostLower parse up =
     (case analyze_try parse up of
        Inr v \<Rightarrow> Inr v
      | Inl ThrownSyntaxError \<Rightarrow> Inl (js ''The AI's recipe list was not in the expected format. This can be a temporary issue. Please try uploading the image again.'')
      | Inl (ThrownError msg) \<Rightarrow>
          (let message = toLowerCase hostLower msg
           in if includesStr message (js ''safety'')
              then Inl safetyMessage
              else if includesStr message (js ''fetch'') \<or> includesStr message (js ''network'')
              then Inl (js ''Could not connect to the recipe service. Please check your internet connection and try again.'')
              else Inl msg)
      | Inl ThrownOther \<Rightarrow> Inl (js ''An unexpected error occurred while getting recipes. Please try again later.''))"

text \<open>
  \<^verbatim>\<open>translateTexts\<close>: every failure inside the \<^verbatim>\<open>try\<close> block (the request rejects
  or has no text: \<open>None\<close>; the text does not parse; the value is no array or has another
  length) is caught, and the original texts are returned.
\<close>

definition translateTexts :: "jsstring json_parse \<Rightarrow> jsstring option \<Rightarrow> jsstring list \<Rightarrow> jsstring list" where
  "translateTexts parse response texts =
     (if length texts = 0 then []
      else (case response of
              None \<Rightarrow> texts
            | Some text0 \<Rightarrow>
                (case parse (stripFence text0) of
                   None \<Rightarrow> texts
                 | Some PNonArray \<Rightarrow> texts
                 | Some (PArray translatedArray) \<Rightarrow>
                     if length translatedArray \<noteq> length texts then texts
                     else translatedArray)))"

text \<open>The condition under which the \<^verbatim>\<open>try\<close> block of \<^verbatim>\<open>translateTexts\<close> throws for a
  non-empty batch: the translation request fails.\<close>

definition translationFails :: "jsstring json_parse \<Rightarrow> jsstring option \<Rightarrow> jsstring list \<Rightarrow> bool" where
  "translationFails parse response texts =
     (case response of
        None \<Rightarrow> True
      | Some text0 \<Rightarrow>
          (case parse (stripFence text0) of
             None \<Rightarrow> True
           | Some PNonArray \<Rightarrow> True
           | Some (PArray translatedArray) \<Rightarrow> length translatedArray \<noteq> length texts))"

section \<open>Translation of chat messages (Chatbot) and of a recipe (RecipeDetailView)\<close>

text \<open>\<^verbatim>\<open>TRANSLATION_LANGUAGES\<close> of the constants file, as pairs of code and name;
  \<^verbatim>\<open>find(l => l.code === code)\<close> is the first pair with that code.\<close>

definition TRANSLATION_LANGUAGES :: "(jsstring \<times> jsstring) list" where
  "TRANSLATION_LANGUAGES =
     [(js ''en'', js ''English''), (js ''es'', js ''Spanish''), (js ''fr'', js ''French''),
      (js ''de'', js ''German''), (js ''hi'', js ''Hindi''),
      (js ''zh'', js ''Chinese (Simplified)''), (js ''ja'', js ''Japanese''),
      (js ''ar'', js ''Arabic''), (js ''ru'', js ''Russian''), (js ''si'', js ''Sinhala''),
      (js ''ta'', js ''Tamil'')]"

definition findLanguage :: "jsstring \<Rightarrow> jsstring option" where
  "findLanguage code = map_of TRANSLATION_LANGUAGES code"

text \<open>\<^verbatim>\<open>!msg.translations?.[selectedLanguage]\<close>: no map, no entry, or an empty entry.\<close>

definition needsTranslation :: "jsstring \<Rightarrow> ChatMessage \<Rightarrow> bool" where
  "needsTranslation lang msg =
     (case lookupTranslation lang msg of None \<Rightarrow> True | Some t \<Rightarrow> t = [])"

definition indicesToTranslate :: "jsstring \<Rightarrow> ChatMessage list \<Rightarrow> nat list" where
  "indicesToTranslate lang messages =
     filter (\<lambda>index. needsTranslation lang (messages ! index)) [0..<length messages]"

definition setTranslation :: "jsstring \<Rightarrow> jsstring \<Rightarrow> ChatMessage \<Rightarrow> ChatMessage" where
  "setTranslation lang t msg =
     msg\<lparr>msg_translations :=
           Some ((case msg_translations msg of None \<Rightarrow> Map.empty | Some tr \<Rightarrow> tr)(lang \<mapsto> t))\<rparr>"

text \<open>The body of \<^verbatim>\<open>translatedTexts.forEach\<close> for one translated text.\<close>

definition updateMessage :: "jsstring \<Rightarrow> jsstring \<Rightarrow> ChatMessage \<Rightarrow> ChatMessage" where
  "updateMessage lang translatedText msg =
     (if translatedText \<noteq> [] \<and> translatedText \<noteq> msg_text msg
      then setTranslation lang translatedText msg
      else msg)"

text \<open>
  The \<^verbatim>\<open>forEach\<close> runs over the translated texts; the i-th one belongs to the message
  at \<^verbatim>\<open>indicesToTranslate[i]\<close>. Where that index is missing or not an index of the
  messages, the read of \<^verbatim>\<open>.text\<close> raises a \<^verbatim>\<open>TypeError\<close>: the result \<open>None\<close>.
\<close>

fun applyTranslations :: "jsstring \<Rightarrow> nat list \<Rightarrow> jsstring list \<Rightarrow> ChatMessage list \<Rightarrow> ChatMessage list option" where
  "applyTranslations lang indices [] newMessages = Some newMessages"
| "applyTranslations lang [] (t # ts) newMessages = None"
| "applyTranslations lang (originalMessageIndex # indices) (t # ts) newMessages =
     (if originalMessageIndex < length newMessages
      then applyTranslations lang indices ts
             (newMessages[originalMessageIndex :=
                updateMessage lang t (newMessages ! originalMessageIndex)])
      else None)"

text \<open>
  The translation effect of the chat window and its \<^verbatim>\<open>doTranslate\<close>. The result is
  the value of the messages after the effect: what \<^verbatim>\<open>onMessagesUpdate\<close> receives, or
  the messages as they were where the effect returns early or the \<^verbatim>\<open>catch\<close> block
  runs. \<open>response\<close> is what the service answers to the request of this pass.
\<close>

definition doTranslate :: "jsstring json_parse \<Rightarrow> jsstring \<Rightarrow> bool \<Rightarrow> jsstring option \<Rightarrow> ChatMessage list \<Rightarrow> ChatMessage list" where
  "doTranslate parse selectedLanguage isOpen response messages =
     (if selectedLanguage = js ''en'' \<or> length messages = 0 \<or> \<not> isOpen then messages
      else
        let indices = indicesToTranslate selectedLanguage messages
        in if length indices = 0 then messages
           else (case findLanguage selectedLanguage of
                   None \<Rightarrow> messages
                 | Some targetLanguageName \<Rightarrow>
                     let textsToTranslate = map (\<lambda>i. msg_text (messages ! i)) indices;
                         translatedTexts = translateTexts parse response textsToTranslate
                     in (case applyTranslations selectedLanguage indices translatedTexts messages of
                           None \<Rightarrow> messages
                         | Some newMessages \<Rightarrow> newMessages)))"

text \<open>
  The translation state of the recipe view and its \<^verbatim>\<open>handleTranslation\<close>. The two
  batches get the answers \<open>response1\<close> (ingredient names) and \<open>response2\<close>
  (instructions). \<^verbatim>\<open>translateTexts\<close> catches every failure, so the \<^verbatim>\<open>catch\<close> block
  of \<^verbatim>\<open>handleTranslation\<close> is never entered and the cache is always written.
\<close>

record translated_content =
  tr_ingredients :: "Ingredient list"
  tr_instructions :: "jsstring list"

record detail_state =
  selectedLanguage :: jsstring
  isTranslating :: bool
  translatedContent :: "jsstring \<rightharpoonup> translated_content"

definition translatedName :: "jsstring list \<Rightarrow> Ingredient \<times> nat \<Rightarrow> Ingredient" where
  "translatedName translatedIngredientNames p =
     (case p of (ing, index) \<Rightarrow>
        ing\<lparr>ing_name :=
              (if index < length translatedIngredientNames \<and> translatedIngredientNames ! index \<noteq> []
               then translatedIngredientNames ! index
               else ing_name ing)\<rparr>)"

definition handleTranslation :: "jsstring json_parse \<Rightarrow> Recipe \<Rightarrow> jsstring option \<Rightarrow> jsstring option \<Rightarrow> detail_state \<Rightarrow> detail_state" where
  "handleTranslation parse recipe response1 response2 st =
     (if selectedLanguage st = js ''en'' \<or> translatedContent st (selectedLanguage st) \<noteq> None then st
      else (case findLanguage (selectedLanguage st) of
              None \<Rightarrow> st
            | Some targetLanguageName \<Rightarrow>
                let originalIngredientNames = map ing_name (ingredients recipe);
                    translatedIngredientNames = translateTexts parse response1 originalIngredientNames;
                    translatedInstructions = translateTexts parse response2 (instructions recipe);
                    translatedIngredients =
                      map (translatedName translatedIngredientNames)
                        (zip (ingredients recipe) [0..<length (ingredients recipe)])
                in st\<lparr>translatedContent :=
                        (translatedContent st)(selectedLanguage st \<mapsto>
                          \<lparr>tr_ingredients = translatedIngredients,
                           tr_instructions = translatedInstructions\<rparr>),
                      isTranslating := False\<rparr>))"

definition displayedIngredients :: "Recipe \<Rightarrow> detail_state \<Rightarrow> Ingredient list" where
  "displayedIngredients recipe st =
     (case translatedContent st (selectedLanguage st) of
        None \<Rightarrow> ingredients recipe
      | Some c \<Rightarrow> tr_ingredients c)"

definition displayedInstructions :: "Recipe \<Rightarrow> detail_state \<Rightarrow> jsstring list" where
  "displayedInstructions recipe st =
     (case translatedContent st (selectedLanguage st) of
        None \<Rightarrow> instructions recipe
      | Some c \<Rightarrow> tr_instructions c)"

section \<open>Sample data\<close>

text \<open>Concrete recipes, states and streams, used to run the definitions.\<close>

definition soup :: Recipe where
  "soup = \<lparr>name = js ''Soup'', difficulty = Easy, prepTime = 10, cookTime = None, calories = 120,
     dietaryTags = [js ''Vegan'', js ''Gluten-Free''],
     ingredients = [\<lparr>ing_name = js ''Carrot'', isAvailable = True\<rparr>,
                    \<lparr>ing_name = js ''Leek'', isAvailable = False\<rparr>],
     instructions = [js ''Chop'', js ''Boil'']\<rparr>"

definition omelette :: Recipe where
  "omelette = \<lparr>name = js ''Omelette'', difficulty = Medium, prepTime = 5, cookTime = Some 7,
     calories = 300, dietaryTags = [js ''Keto''],
     ingredients = [\<lparr>ing_name = js ''Egg'', isAvailable = True\<rparr>],
     instructions = [js ''Whisk'', js ''Fry'']\<rparr>"

definition photo :: File where
  "photo = File (js ''fridge'') (js ''image/png'')"

definition cooking_state :: app_state where
  "cooking_state =
     run [ImageUploadBegin photo, ImageUploadEnd (Inr [soup]), SelectRecipe soup] (initial_state [])"

definition chat_ready :: chat_state where
  "chat_ready = initChat True chat_initial"

definition chat_inert :: chat_state where
  "chat_inert = initChat False chat_initial"

definition sample_chunks :: "Chunk list" where
  "sample_chunks =
     [\<lparr>chunk_text = js ''Hel'', chunk_grounding = None\<rparr>,
      \<lparr>chunk_text = js ''lo'', chunk_grounding = None\<rparr>,
      \<lparr>chunk_text = [], chunk_grounding = None\<rparr>]"

definition es_messages :: "ChatMessage list" where
  "es_messages = [mkMessage user (js ''Hello''), mkMessage model (js ''Taco'')]"

definition es_state :: detail_state where
  "es_state = \<lparr>selectedLanguage = js ''es'', isTranslating = False, translatedContent = Map.empty\<rparr>"

text \<open>Stand-ins for \<^verbatim>\<open>JSON.parse\<close> on the sample answers: an answer that parses to
  two strings, one that parses to a single string, and a parser that knows the text
  \<^verbatim>\<open>{}\<close> (an object, so no array) and rejects the rest.\<close>

definition parse_two :: "jsstring json_parse" where
  "parse_two s = Some (PArray [js ''Hola'', js ''Taco''])"

definition parse_one :: "jsstring json_parse" where
  "parse_one s = Some (PArray [js ''Hola''])"

definition parse_object :: "'a json_parse" where
  "parse_object s = (if s = js ''{}'' then Some PNonArray else None)"

section \<open>Literals\<close>

lemma js_inj [simp]: "(js a = js b) = (a = b)"
  by (simp add: js_def inj_map_eq_map inj_on_def)

lemma js_Nil [simp]: "js [] = []"
  by (simp add: js_def)

lemma js_eq_Nil [simp]: "(js a = []) = (a = [])"
  by (simp add: js_def)

lemma js_append [simp]: "js a @ js b = js (a @ b)"
  by (simp add: js_def)

section \<open>Recipe collection, favourites and shopping list\<close>

text \<open>
  Claim C5. For every recipe list \<open>R\<close> and filter list \<open>F\<close>, the dietary step of the
  filtered view keeps exactly the recipes of \<open>R\<close> whose tags contain every filter of
  \<open>F\<close>, in their order, and with no filter it is the identity. The filtered view is
  the search applied to the recipes kept; with an empty search query it is the dietary
  step itself.
\<close>

theorem dietFiltered_keeps_supersets:
  "dietFiltered F R = filter (\<lambda>r. set F \<subseteq> set (dietaryTags r)) R
   \<and> dietFiltered [] R = R
   \<and> filteredRecipesOf hostLower F q R
        = filteredRecipesOf hostLower [] q (filter (\<lambda>r. set F \<subseteq> set (dietaryTags r)) R)
   \<and> filteredRecipesOf hostLower F [] R = filter (\<lambda>r. set F \<subseteq> set (dietaryTags r)) R
   \<and> filteredRecipesOf hostLower [] [] R = R"
proof -
  have a: "dietFiltered F R = filter (\<lambda>r. set F \<subseteq> set (dietaryTags r)) R"
    by (cases F) (simp_all add: dietFiltered_def list_all_iff subset_eq)
  have b: "dietFiltered [] R = R" for R
    by (simp add: dietFiltered_def)
  have c: "filteredRecipesOf hostLower F [] R = dietFiltered F R" for F
    by (simp add: filteredRecipesOf_def toLowerCase_def trim_def)
  have d: "filteredRecipesOf hostLower F q R = filteredRecipesOf hostLower [] q (dietFiltered F R)"
    by (simp add: filteredRecipesOf_def b)
  show ?thesis using a b c d by simp
qed

lemma dietFiltered_sample: "dietFiltered [js ''Vegan''] [soup, omelette] = [soup]"
  by (simp add: dietFiltered_def soup_def omelette_def js_def)

text \<open>A search with capitals and blanks (among them a no-break space and a byte order
  mark) around the word.\<close>

lemma filteredRecipes_search_sample:
  "filteredRecipesOf hostLower [] (js '' LEEK '') [soup, omelette] = [soup]
   \<and> trim ([0xFEFF, 0xA0] @ js '' leek '' @ [0x2003, 0x3000]) = js ''leek''"
  by (simp add: filteredRecipesOf_def dietFiltered_def soup_def omelette_def searchMatch_def
        toLowerCase_def toLowerCase_unit_def trim_def is_space_def js_def)

lemma toggle_absent:
  "\<not> list_ex (\<lambda>x. name x = name r) favs \<Longrightarrow> toggleFavorite favs r = favs @ [r]"
  by (simp add: toggleFavorite_def)

lemma toggle_present:
  "list_ex (\<lambda>x. name x = name r) favs \<Longrightarrow>
   toggleFavorite favs r = filter (\<lambda>x. name x \<noteq> name r) favs"
  by (simp add: toggleFavorite_def)

lemma filter_other_names:
  "\<not> list_ex (\<lambda>x. name x = name r) favs \<Longrightarrow> filter (\<lambda>x. name x \<noteq> name r) favs = favs"
  by (induction favs) auto

lemma toggle_twice_present:
  assumes "list_ex (\<lambda>x. name x = name r) favs"
  shows "toggleFavorite (toggleFavorite favs r) r = filter (\<lambda>x. name x \<noteq> name r) favs @ [r]"
proof -
  have "\<not> list_ex (\<lambda>x. name x = name r) (filter (\<lambda>x. name x \<noteq> name r) favs)"
    by (simp add: list_ex_iff)
  then show ?thesis
    using assms by (simp add: toggle_present toggle_absent)
qed

lemma only_entry_with_name:
  "r \<in> set favs \<Longrightarrow> distinct (map name favs) \<Longrightarrow> filter (\<lambda>x. name x = name r) favs = [r]"
proof (induction favs)
  case Nil
  then show ?case by simp
next
  case (Cons a favs)
  then show ?case by (auto simp: filter_empty_conv image_iff)
qed

text \<open>
  Claim C6, as the code has it. A toggle appends \<open>r\<close> when no favourite carries its name
  and removes every favourite carrying its name otherwise, whatever the view and the
  tab are. Two toggles restore the list when no favourite carried the name of \<open>r\<close>;
  when one did, they give the favourites with other names followed by \<open>r\<close>, which
  has the entries of the original list (in another order) when \<open>r\<close> itself was a
  favourite and the names were distinct.
\<close>

theorem toggleFavorite_twice:
  "(\<not> list_ex (\<lambda>x. name x = name r) favs \<longrightarrow>
      toggleFavorite favs r = favs @ [r] \<and> toggleFavorite (toggleFavorite favs r) r = favs)
   \<and> (list_ex (\<lambda>x. name x = name r) favs \<longrightarrow>
      toggleFavorite favs r = filter (\<lambda>x. name x \<noteq> name r) favs
      \<and> toggleFavorite (toggleFavorite favs r) r = filter (\<lambda>x. name x \<noteq> name r) favs @ [r])
   \<and> (r \<in> set favs \<and> distinct (map name favs) \<longrightarrow>
      set (toggleFavorite (toggleFavorite favs r) r) = set favs
      \<and> length (toggleFavorite (toggleFavorite favs r) r) = length favs)
   \<and> favoriteRecipes (handleToggleFavorite r (s\<lparr>view := v, activeTab := t\<rparr>))
       = toggleFavorite (favoriteRecipes s) r"
proof (intro conjI impI)
  assume a: "\<not> list_ex (\<lambda>x. name x = name r) favs"
  show "toggleFavorite favs r = favs @ [r]" using a by (rule toggle_absent)
  have "list_ex (\<lambda>x. name x = name r) (favs @ [r])" by (simp add: list_ex_iff)
  then show "toggleFavorite (toggleFavorite favs r) r = favs"
    using a by (simp add: toggle_absent toggle_present filter_other_names)
next
  assume p: "list_ex (\<lambda>x. name x = name r) favs"
  show "toggleFavorite favs r = filter (\<lambda>x. name x \<noteq> name r) favs"
    using p by (rule toggle_present)
  show "toggleFavorite (toggleFavorite favs r) r = filter (\<lambda>x. name x \<noteq> name r) favs @ [r]"
    using p by (rule toggle_twice_present)
next
  assume h: "r \<in> set favs \<and> distinct (map name favs)"
  then have p: "list_ex (\<lambda>x. name x = name r) favs" by (auto simp: list_ex_iff)
  note tw = toggle_twice_present [OF p]
  have uniq: "\<And>x. x \<in> set favs \<Longrightarrow> name x = name r \<Longrightarrow> x = r"
    using h by (meson distinct_map inj_onD)
  show "set (toggleFavorite (toggleFavorite favs r) r) = set favs"
    using h uniq by (auto simp: tw)
  have "length (filter (\<lambda>x. name x = name r) favs) = 1"
    using h by (simp add: only_entry_with_name)
  moreover have "length favs = length (filter (\<lambda>x. name x = name r) favs)
                   + length (filter (\<lambda>x. name x \<noteq> name r) favs)"
    using sum_length_filter_compl [of "\<lambda>x. name x = name r" favs] by simp
  ultimately show "length (toggleFavorite (toggleFavorite favs r) r) = length favs"
    by (simp add: tw)
next
  show "favoriteRecipes (handleToggleFavorite r (s\<lparr>view := v, activeTab := t\<rparr>))
       = toggleFavorite (favoriteRecipes s) r"
    by (simp add: handleToggleFavorite_def)
qed

text \<open>The theorem at the favourites \<open>[omelette]\<close> (no soup yet) and \<open>[soup, omelette]\<close>.\<close>

theorem toggleFavorite_twice_witness:
  "\<not> list_ex (\<lambda>x. name x = name soup) [omelette]
   \<and> toggleFavorite [omelette] soup = [omelette, soup]
   \<and> toggleFavorite (toggleFavorite [omelette] soup) soup = [omelette]
   \<and> list_ex (\<lambda>x. name x = name soup) [soup, omelette]
   \<and> toggleFavorite [soup, omelette] soup = [omelette]
   \<and> toggleFavorite (toggleFavorite [soup, omelette] soup) soup = [omelette, soup]
   \<and> soup \<in> set [soup, omelette] \<and> distinct (map name [soup, omelette])
   \<and> set (toggleFavorite (toggleFavorite [soup, omelette] soup) soup) = set [soup, omelette]"
proof -
  have a: "\<not> list_ex (\<lambda>x. name x = name soup) [omelette]"
    by (simp add: soup_def omelette_def)
  have p: "list_ex (\<lambda>x. name x = name soup) [soup, omelette]"
    by simp
  have d: "soup \<in> set [soup, omelette] \<and> distinct (map name [soup, omelette])"
    by (simp add: soup_def omelette_def)
  have f: "filter (\<lambda>x. name x \<noteq> name soup) [soup, omelette] = [omelette]"
    by (simp add: soup_def omelette_def)
  note t1 = toggleFavorite_twice [of soup "[omelette]"]
  note t2 = toggleFavorite_twice [of soup "[soup, omelette]"]
  from t1 a have "toggleFavorite [omelette] soup = [omelette] @ [soup]" by blast
  then have c1: "toggleFavorite [omelette] soup = [omelette, soup]" by simp
  from t1 a have c2: "toggleFavorite (toggleFavorite [omelette] soup) soup = [omelette]"
    by blast
  from t2 p have "toggleFavorite [soup, omelette] soup
      = filter (\<lambda>x. name x \<noteq> name soup) [soup, omelette]" by blast
  then have c3: "toggleFavorite [soup, omelette] soup = [omelette]" unfolding f .
  from t2 p have "toggleFavorite (toggleFavorite [soup, omelette] soup) soup
      = filter (\<lambda>x. name x \<noteq> name soup) [soup, omelette] @ [soup]" by blast
  then have c4: "toggleFavorite (toggleFavorite [soup, omelette] soup) soup = [omelette, soup]"
    unfolding f by simp
  from t2 d have c5: "set (toggleFavorite (toggleFavorite [soup, omelette] soup) soup)
      = set [soup, omelette]" by blast
  from a c1 c2 p c3 c4 d c5 show ?thesis by (intro conjI) blast+
qed

text \<open>Claim C6 as stated fails where the recipe is a favourite that is not the last
  one: two toggles move it to the end.\<close>

theorem toggleFavorite_twice_counterexample:
  "toggleFavorite (toggleFavorite [soup, omelette] soup) soup \<noteq> [soup, omelette]"
  by (simp add: toggleFavorite_def soup_def omelette_def)

text \<open>
  Claim C7, as the code has it. \<open>addItems L X\<close> is \<open>L\<close> followed by the members of
  \<open>X\<close> that are not in \<open>L\<close>, in their order; adding the same batch again changes
  nothing; and the result has no duplicates when neither \<open>L\<close> nor \<open>X\<close> has one.
\<close>

theorem addItems_spec:
  "addItems L X = L @ filter (\<lambda>x. x \<notin> set L) X
   \<and> addItems (addItems L X) X = addItems L X
   \<and> (distinct L \<and> distinct X \<longrightarrow> distinct (addItems L X))
   \<and> shoppingList (addToShoppingList X s) = addItems (shoppingList s) X"
proof -
  have a: "addItems L X = L @ filter (\<lambda>x. x \<notin> set L) X" for L X
    by (simp add: addItems_def)
  have "filter (\<lambda>x. x \<notin> set (L @ filter (\<lambda>x. x \<notin> set L) X)) X = []"
    by (auto simp: filter_empty_conv)
  then have b: "addItems (addItems L X) X = addItems L X"
    by (simp add: a)
  have c: "distinct L \<and> distinct X \<longrightarrow> distinct (addItems L X)"
    by (auto simp: a)
  show ?thesis using a b c by (simp add: addToShoppingList_def)
qed

theorem addItems_spec_witness:
  "distinct [js ''Leek''] \<and> distinct [js ''Egg'', js ''Leek'', js ''Milk'']
   \<and> addItems [js ''Leek''] [js ''Egg'', js ''Leek'', js ''Milk''] = [js ''Leek'', js ''Egg'', js ''Milk'']
   \<and> distinct (addItems [js ''Leek''] [js ''Egg'', js ''Leek'', js ''Milk''])"
proof -
  have d: "distinct [js ''Leek''] \<and> distinct [js ''Egg'', js ''Leek'', js ''Milk'']" by simp
  from addItems_spec [of "[js ''Leek'']" "[js ''Egg'', js ''Leek'', js ''Milk'']"] d
  have "addItems [js ''Leek''] [js ''Egg'', js ''Leek'', js ''Milk'']
          = [js ''Leek''] @ filter (\<lambda>x. x \<notin> set [js ''Leek'']) [js ''Egg'', js ''Leek'', js ''Milk'']
        \<and> distinct (addItems [js ''Leek''] [js ''Egg'', js ''Leek'', js ''Milk''])"
    by blast
  then show ?thesis using d by simp
qed

text \<open>Claim C7 as stated fails where the batch itself repeats a new item: both copies
  are appended.\<close>

theorem addItems_duplicates_counterexample:
  "\<not> distinct (addItems [] [js ''Leek'', js ''Leek''])"
  by (simp add: addItems_def)

section \<open>Navigation\<close>

lemma reachable_run: "reachable s \<Longrightarrow> reachable (run es s)"
  by (induction es arbitrary: s) (auto intro: reachable.reach_step)

lemmas handler_defs =
  handleSelectRecipe_def handleBackToRecipes_def resetApp_def handleImageUpload_begin_def
  handleImageUpload_end_def handleToggleFavorite_def addToShoppingList_def
  removeFromShoppingList_def handleFilterChange_def handleClearFilters_def

lemma step_view_selected:
  "view s = Cooking \<longrightarrow> selectedRecipe s \<noteq> None \<Longrightarrow>
   view (step e s) = Cooking \<longrightarrow> selectedRecipe (step e s) \<noteq> None"
  by (cases e) (auto simp: handler_defs split: sum.splits)

lemma cooking_invariant: "reachable s \<Longrightarrow> view s = Cooking \<longrightarrow> selectedRecipe s \<noteq> None"
proof (induction rule: reachable.induct)
  case (reach_init favs)
  show ?case by (simp add: initial_state_def)
next
  case (reach_step s e)
  from reach_step.IH show ?case by (rule step_view_selected)
qed

lemma enter_cooking:
  "view (step e s) = Cooking \<Longrightarrow> view s \<noteq> Cooking \<Longrightarrow>
   \<exists>r. e = SelectRecipe r \<and> selectedRecipe (step e s) = Some r"
  by (cases e) (auto simp: handler_defs split: sum.splits)

lemma clear_selection:
  "selectedRecipe s \<noteq> None \<Longrightarrow> selectedRecipe (step e s) = None \<Longrightarrow>
   view (step e s) \<noteq> Cooking \<and> (e = BackToRecipes \<or> e = ResetApp)"
  by (cases e) (auto simp: handler_defs split: sum.splits)

text \<open>
  Claim C8. In every state reachable from the initial state by the operations of the
  interface, the cooking view has a selected recipe. A step that enters the cooking view
  is the selection of a recipe and sets it, and a step that clears the selection leaves
  the cooking view.
\<close>

theorem cooking_has_selection:
  assumes "reachable s"
  shows "(view s = Cooking \<longrightarrow> selectedRecipe s \<noteq> None)
    \<and> (\<forall>e. view (step e s) = Cooking \<and> view s \<noteq> Cooking \<longrightarrow>
           (\<exists>r. e = SelectRecipe r \<and> selectedRecipe (step e s) = Some r))
    \<and> (\<forall>e. selectedRecipe s \<noteq> None \<and> selectedRecipe (step e s) = None \<longrightarrow>
           view (step e s) \<noteq> Cooking)"
  using assms cooking_invariant enter_cooking clear_selection by blast

lemma reachable_cooking_state: "reachable cooking_state"
  unfolding cooking_state_def by (rule reachable_run) (rule reachable.reach_init)

lemma cooking_state_view: "view cooking_state = Cooking"
  by (simp add: cooking_state_def initial_state_def handleImageUpload_begin_def
        handleImageUpload_end_def handleSelectRecipe_def)

text \<open>The theorem at the state reached by an upload, its success and a selection, and
  at the step back from it.\<close>

theorem cooking_has_selection_witness:
  "reachable cooking_state \<and> view cooking_state = Cooking \<and> selectedRecipe cooking_state \<noteq> None
   \<and> view (step BackToRecipes cooking_state) \<noteq> Cooking
   \<and> selectedRecipe (step BackToRecipes cooking_state) = None"
proof -
  have r: "reachable cooking_state" by (rule reachable_cooking_state)
  have v: "view cooking_state = Cooking" by (rule cooking_state_view)
  have c: "selectedRecipe (step BackToRecipes cooking_state) = None"
    by (simp add: handleBackToRecipes_def)
  from cooking_has_selection [OF r] v c show ?thesis using r by blast
qed

text \<open>
  Claim C9. \<open>resetApp\<close> sets the view to the upload view and clears the uploaded image,
  the recipes, the selected recipe, the error and the search query; the favourites, the
  shopping list and every other field stay as they were.
\<close>

theorem resetApp_frame:
  "view (resetApp s) = Upload
   \<and> uploadedImage (resetApp s) = None
   \<and> recipes (resetApp s) = []
   \<and> selectedRecipe (resetApp s) = None
   \<and> error (resetApp s) = None
   \<and> searchQuery (resetApp s) = []
   \<and> favoriteRecipes (resetApp s) = favoriteRecipes s
   \<and> shoppingList (resetApp s) = shoppingList s
   \<and> activeTab (resetApp s) = activeTab s
   \<and> activeFilters (resetApp s) = activeFilters s
   \<and> isLoading (resetApp s) = isLoading s"
  by (simp add: resetApp_def)

section \<open>Chat orchestration\<close>

text \<open>After the first chunk the loop only rewrites the text of the last message.\<close>

lemma streamLoop_later:
  "\<not> firstChunk l \<Longrightarrow> chatMessages s = pre @ [m] \<Longrightarrow>
   streamLoop cs l s =
     Some (l\<lparr>fullResponse := fullResponse l @ concat (map chunk_text cs),
              finalChunk := (if cs = [] then finalChunk l else Some (last cs))\<rparr>,
           s\<lparr>chatMessages :=
               pre @ [m\<lparr>msg_text := (if cs = [] then msg_text m
                                       else fullResponse l @ concat (map chunk_text cs))\<rparr>]\<rparr>)"
proof (induction cs arbitrary: l s m)
  case Nil
  then show ?case by simp
next
  case (Cons c cs)
  let ?full = "fullResponse l @ chunk_text c"
  let ?l1 = "l\<lparr>fullResponse := ?full, finalChunk := Some c\<rparr>"
  let ?s1 = "s\<lparr>chatMessages := pre @ [m\<lparr>msg_text := ?full\<rparr>]\<rparr>"
  have st: "setLastText ?full (chatMessages s) = Some (pre @ [m\<lparr>msg_text := ?full\<rparr>])"
    using Cons.prems(2) by (simp add: setLastText_def)
  have step: "streamLoop (c # cs) l s = streamLoop cs ?l1 ?s1"
    using Cons.prems(1) st by (simp add: Let_def)
  have nf: "\<not> firstChunk ?l1" using Cons.prems(1) by simp
  have ms: "chatMessages ?s1 = pre @ [m\<lparr>msg_text := ?full\<rparr>]" by simp
  show ?case
    unfolding step Cons.IH [OF nf ms]
    by (cases "cs = []") simp_all
qed

lemma streamLoop_nonempty:
  assumes "firstChunk l" and "cs \<noteq> []"
  shows "streamLoop cs l s =
     Some (l\<lparr>fullResponse := fullResponse l @ concat (map chunk_text cs),
              finalChunk := Some (last cs), firstChunk := False\<rparr>,
           s\<lparr>chatMessages :=
               chatMessages s @ [mkMessage model (fullResponse l @ concat (map chunk_text cs))]\<rparr>)"
proof -
  obtain c rest where cs: "cs = c # rest" using assms(2) by (cases cs) auto
  let ?full = "fullResponse l @ chunk_text c"
  let ?l1 = "l\<lparr>fullResponse := ?full, finalChunk := Some c, firstChunk := False\<rparr>"
  let ?s1 = "s\<lparr>chatMessages := chatMessages s @ [mkMessage model ?full]\<rparr>"
  have step: "streamLoop cs l s = streamLoop rest ?l1 ?s1"
    using assms(1) by (simp add: cs Let_def)
  have nf: "\<not> firstChunk ?l1" by simp
  have ms: "chatMessages ?s1 = chatMessages s @ [mkMessage model ?full]" by simp
  show ?thesis
    unfolding step streamLoop_later [OF nf ms]
    by (cases "rest = []") (simp_all add: cs mkMessage_def)
qed

lemma streamLoop_append:
  "streamLoop (xs @ ys) l s =
     (case streamLoop xs l s of None \<Rightarrow> None | Some (l', s') \<Rightarrow> streamLoop ys l' s')"
  by (induction xs arbitrary: l s) (auto simp: Let_def split: option.splits)

lemma attachGrounding_fresh:
  "attachGrounding (Some c) (pre @ [mkMessage model t]) =
     Some (pre @ [(mkMessage model t)\<lparr>groundingChunks :=
       (case chunk_grounding c of
          None \<Rightarrow> None
        | Some g \<Rightarrow> if g = [] then None else Some g)\<rparr>])"
  by (simp add: attachGrounding_def mkMessage_def split: option.splits)

lemma send_completes:
  assumes "chatSession s = Some c" and "chunks \<noteq> []"
  shows "handleSendMessage message (Streams chunks Completes) s =
     Some (s\<lparr>chatMessages := chatMessages s @
                [mkMessage user message,
                 (mkMessage model (concat (map chunk_text chunks)))
                   \<lparr>groundingChunks :=
                      (case chunk_grounding (last chunks) of
                         None \<Rightarrow> None
                       | Some g \<Rightarrow> if g = [] then None else Some g)\<rparr>],
              isBotLoading := False\<rparr>)"
proof -
  have fc: "firstChunk locals_initial" by (simp add: locals_initial_def)
  note ag = attachGrounding_fresh [of "last chunks" "chatMessages s @ [mkMessage user message]"
                "concat (map chunk_text chunks)"]
  note loop = streamLoop_nonempty [OF fc assms(2), of "sendBegin message s"]
  have "handleSendMessage message (Streams chunks Completes) s =
          Some (finallyChat ((sendBegin message s)\<lparr>chatMessages :=
            (chatMessages s @ [mkMessage user message])
                 @ [(mkMessage model (concat (map chunk_text chunks)))
                   \<lparr>groundingChunks :=
                      (case chunk_grounding (last chunks) of
                         None \<Rightarrow> None
                       | Some g \<Rightarrow> if g = [] then None else Some g)\<rparr>]\<rparr>))"
    using assms(1) ag by (simp add: handleSendMessage_def loop) (simp add: locals_initial_def sendBegin_def)
  then show ?thesis
    by (simp add: finallyChat_def sendBegin_def)
qed

lemma send_throws_after_chunks:
  assumes "chatSession s = Some c" and "chunks \<noteq> []"
  shows "handleSendMessage message (Streams chunks Throws) s =
     Some (s\<lparr>chatMessages := chatMessages s @
                [mkMessage user message,
                 mkMessage model (concat (map chunk_text chunks)),
                 mkMessage model connectionApology],
              isBotLoading := False\<rparr>)"
proof -
  have fc: "firstChunk locals_initial" by (simp add: locals_initial_def)
  note loop = streamLoop_nonempty [OF fc assms(2), of "sendBegin message s"]
  show ?thesis
    using assms(1)
    by (simp add: handleSendMessage_def loop) (simp add: finallyChat_def catchChatError_def sendBegin_def locals_initial_def)
qed

lemma send_no_chunks:
  assumes "chatSession s = Some c"
  shows "handleSendMessage message (Streams [] Completes) s =
           Some (s\<lparr>chatMessages := chatMessages s @ [mkMessage user message],
                    isBotLoading := False\<rparr>)"
    and "handleSendMessage message (Streams [] Throws) s =
           Some (s\<lparr>chatMessages := chatMessages s @
                      [mkMessage user message,
                       mkMessage model connectionApology],
                    isBotLoading := False\<rparr>)"
    and "handleSendMessage message SendThrows s =
           Some (s\<lparr>chatMessages := chatMessages s @
                      [mkMessage user message,
                       mkMessage model connectionApology],
                    isBotLoading := False\<rparr>)"
  using assms
  by (simp_all add: handleSendMessage_def sendBegin_def locals_initial_def finallyChat_def
        catchChatError_def attachGrounding_def)

text \<open>
  Claim C1, as the code has it. When a session exists and the stream delivers at least
  one chunk and then completes, the turn appends the user message and exactly one model
  message, whose text is the concatenation of all chunk texts (with the citations of the
  last chunk, if it has any). After each chunk, the transcript ends with that one model
  message and its text is the concatenation of the chunk texts received so far; this
  holds for every prefix, whether or not the stream later throws. The chat window shows
  the final text in every language.
\<close>

theorem stream_appends_one_model_message:
  assumes "chatSession s \<noteq> None" and "chunks \<noteq> []"
  shows "handleSendMessage message (Streams chunks Completes) s =
     Some (s\<lparr>chatMessages := chatMessages s @
                [mkMessage user message,
                 (mkMessage model (concat (map chunk_text chunks)))
                   \<lparr>groundingChunks :=
                      (case chunk_grounding (last chunks) of
                         None \<Rightarrow> None
                       | Some g \<Rightarrow> if g = [] then None else Some g)\<rparr>],
              isBotLoading := False\<rparr>)
   \<and> (\<forall>k. 0 < k \<and> k \<le> length chunks \<longrightarrow>
         streamLoop (take k chunks) locals_initial (sendBegin message s) =
           Some (\<lparr>firstChunk = False, fullResponse = concat (map chunk_text (take k chunks)),
                  finalChunk = Some (chunks ! (k - 1))\<rparr>,
                 (sendBegin message s)\<lparr>chatMessages := chatMessages s @
                    [mkMessage user message,
                     mkMessage model (concat (map chunk_text (take k chunks)))]\<rparr>))
   \<and> (\<forall>s' lang. handleSendMessage message (Streams chunks Completes) s = Some s' \<longrightarrow>
         displayedText lang (last (chatMessages s')) = concat (map chunk_text chunks))"
proof (intro conjI allI impI)
  show r: "handleSendMessage message (Streams chunks Completes) s =
     Some (s\<lparr>chatMessages := chatMessages s @
                [mkMessage user message,
                 (mkMessage model (concat (map chunk_text chunks)))
                   \<lparr>groundingChunks :=
                      (case chunk_grounding (last chunks) of
                         None \<Rightarrow> None
                       | Some g \<Rightarrow> if g = [] then None else Some g)\<rparr>],
              isBotLoading := False\<rparr>)"
    using assms by (auto intro: send_completes)
  fix s' lang
  assume "handleSendMessage message (Streams chunks Completes) s = Some s'"
  with r show "displayedText lang (last (chatMessages s')) = concat (map chunk_text chunks)"
    by (auto simp: displayedText_def lookupTranslation_def mkMessage_def)
next
  fix k
  assume k: "0 < k \<and> k \<le> length chunks"
  then have ne: "take k chunks \<noteq> []" using assms(2) by (cases chunks) auto
  have fc: "firstChunk locals_initial" by (simp add: locals_initial_def)
  have "length (take k chunks) = k" using k by simp
  then have la: "last (take k chunks) = chunks ! (k - 1)"
    using k ne by (simp add: last_conv_nth)
  show "streamLoop (take k chunks) locals_initial (sendBegin message s) =
           Some (\<lparr>firstChunk = False, fullResponse = concat (map chunk_text (take k chunks)),
                  finalChunk = Some (chunks ! (k - 1))\<rparr>,
                 (sendBegin message s)\<lparr>chatMessages := chatMessages s @
                    [mkMessage user message,
                     mkMessage model (concat (map chunk_text (take k chunks)))]\<rparr>)"
    using streamLoop_nonempty [OF fc ne, of "sendBegin message s"] unfolding la
    by (simp add: locals_initial_def sendBegin_def)
qed

text \<open>Claim C1 as stated fails where the stream throws after a chunk: the turn then
  appends two model messages, the partial reply and the apology.\<close>

theorem stream_two_model_messages_counterexample:
  "handleSendMessage (js ''hi'') (Streams [\<lparr>chunk_text = js ''Hel'', chunk_grounding = None\<rparr>] Throws) chat_ready
     = Some (chat_ready\<lparr>chatMessages := chatMessages chat_ready @
               [mkMessage user (js ''hi''), mkMessage model (js ''Hel''),
                mkMessage model connectionApology]\<rparr>)"
  by (simp add: handleSendMessage_def chat_ready_def initChat_def chat_initial_def sendBegin_def
        locals_initial_def catchChatError_def finallyChat_def setLastText_def Let_def)

text \<open>The theorem at the chunks \<open>Hel\<close>, \<open>lo\<close> and the empty text.\<close>

theorem stream_appends_one_model_message_witness:
  "chatSession chat_ready \<noteq> None \<and> sample_chunks \<noteq> []
   \<and> handleSendMessage (js ''hi'') (Streams sample_chunks Completes) chat_ready =
       Some (chat_ready\<lparr>chatMessages := chatMessages chat_ready @
               [mkMessage user (js ''hi''), mkMessage model (js ''Hello'')]\<rparr>)
   \<and> (0::nat) < 1 \<and> 1 \<le> length sample_chunks
   \<and> streamLoop (take 1 sample_chunks) locals_initial (sendBegin (js ''hi'') chat_ready) =
       Some (\<lparr>firstChunk = False, fullResponse = js ''Hel'',
              finalChunk = Some \<lparr>chunk_text = js ''Hel'', chunk_grounding = None\<rparr>\<rparr>,
             (sendBegin (js ''hi'') chat_ready)\<lparr>chatMessages := chatMessages chat_ready @
               [mkMessage user (js ''hi''), mkMessage model (js ''Hel'')]\<rparr>)"
proof -
  have a: "chatSession chat_ready \<noteq> None"
    by (simp add: chat_ready_def initChat_def)
  have b: "sample_chunks \<noteq> []" by (simp add: sample_chunks_def)
  have k: "(0::nat) < 1 \<and> 1 \<le> length sample_chunks" by (simp add: sample_chunks_def)
  note t = stream_appends_one_model_message [OF a b, of "js ''hi''"]
  from t have t1: "handleSendMessage (js ''hi'') (Streams sample_chunks Completes) chat_ready =
       Some (chat_ready\<lparr>chatMessages := chatMessages chat_ready @
               [mkMessage user (js ''hi''), mkMessage model (js ''Hello'')]\<rparr>)"
    by (simp add: sample_chunks_def mkMessage_def chat_ready_def initChat_def chat_initial_def)
  from t k have t2: "streamLoop (take 1 sample_chunks) locals_initial (sendBegin (js ''hi'') chat_ready) =
       Some (\<lparr>firstChunk = False, fullResponse = concat (map chunk_text (take 1 sample_chunks)),
              finalChunk = Some (sample_chunks ! (1 - 1))\<rparr>,
             (sendBegin (js ''hi'') chat_ready)\<lparr>chatMessages := chatMessages chat_ready @
               [mkMessage user (js ''hi''), mkMessage model (concat (map chunk_text (take 1 sample_chunks)))]\<rparr>)"
    by blast
  have t3: "concat (map chunk_text (take 1 sample_chunks)) = js ''Hel''"
    by (simp add: sample_chunks_def)
  have t4: "sample_chunks ! (1 - 1) = \<lparr>chunk_text = js ''Hel'', chunk_grounding = None\<rparr>"
    by (simp add: sample_chunks_def)
  show ?thesis using a b k t1 t2 unfolding t3 t4 by simp
qed

lemma send_result:
  assumes "chatSession s = Some c"
  shows "\<exists>tail. handleSendMessage message outcome s =
           Some (s\<lparr>chatMessages := chatMessages s @ mkMessage user message # tail,
                    isBotLoading := False\<rparr>)
         \<and> ((outcome = SendThrows \<or> (\<exists>cs. outcome = Streams cs Throws)) \<longrightarrow>
              tail \<noteq> [] \<and> last tail = mkMessage model connectionApology)"
proof (cases outcome)
  case SendThrows
  show ?thesis
    by (rule exI [of _ "[mkMessage model connectionApology]"])
       (simp add: SendThrows send_no_chunks(3) [OF assms])
next
  case (Streams cs e)
  show ?thesis
  proof (cases "cs = []")
    case True
    show ?thesis
    proof (cases e)
      case Completes
      show ?thesis
        by (rule exI [of _ "[]"]) (simp add: Streams True Completes send_no_chunks(1) [OF assms])
    next
      case Throws
      show ?thesis
        by (rule exI [of _ "[mkMessage model connectionApology]"])
           (simp add: Streams True Throws send_no_chunks(2) [OF assms])
    qed
  next
    case False
    show ?thesis
    proof (cases e)
      case Completes
      show ?thesis
        by (rule exI [of _ "[(mkMessage model (concat (map chunk_text cs)))
                   \<lparr>groundingChunks :=
                      (case chunk_grounding (last cs) of
                         None \<Rightarrow> None
                       | Some g \<Rightarrow> if g = [] then None else Some g)\<rparr>]"])
           (simp add: Streams Completes send_completes [OF assms False])
    next
      case Throws
      show ?thesis
        by (rule exI [of _ "[mkMessage model (concat (map chunk_text cs)),
                             mkMessage model connectionApology]"])
           (simp add: Streams Throws send_throws_after_chunks [OF assms False])
    qed
  qed
qed

text \<open>
  Claim C4, as the code has it. Without a chat session (initialisation failed) the call
  returns at once and the transcript is unchanged. With a session, the user message is
  appended before the first suspension and stays at its place; the call always ends
  with the loading flag reset; and if the request or the stream throws, the last
  message of the transcript is the apology, so a partial model message is always
  followed by it.
\<close>

theorem send_appends_user_and_recovers:
  "(chatSession s = None \<longrightarrow> handleSendMessage message outcome s = Some s)
   \<and> (chatSession s \<noteq> None \<longrightarrow>
        chatMessages (sendBegin message s) = chatMessages s @ [mkMessage user message]
        \<and> (\<exists>s'. handleSendMessage message outcome s = Some s'
              \<and> take (Suc (length (chatMessages s))) (chatMessages s')
                    = chatMessages s @ [mkMessage user message]
              \<and> \<not> isBotLoading s'
              \<and> ((outcome = SendThrows \<or> (\<exists>cs. outcome = Streams cs Throws)) \<longrightarrow>
                    last (chatMessages s')
                      = mkMessage model connectionApology)))"
proof (intro conjI impI)
  assume "chatSession s = None"
  then show "handleSendMessage message outcome s = Some s"
    by (simp add: handleSendMessage_def)
next
  assume "chatSession s \<noteq> None"
  show "chatMessages (sendBegin message s) = chatMessages s @ [mkMessage user message]"
    by (simp add: sendBegin_def)
next
  assume "chatSession s \<noteq> None"
  then obtain c where c: "chatSession s = Some c" by auto
  from send_result [OF c, of message outcome]
  obtain tail where r: "handleSendMessage message outcome s =
           Some (s\<lparr>chatMessages := chatMessages s @ mkMessage user message # tail,
                    isBotLoading := False\<rparr>)"
    and f: "(outcome = SendThrows \<or> (\<exists>cs. outcome = Streams cs Throws)) \<longrightarrow>
              tail \<noteq> [] \<and>
              last tail = mkMessage model connectionApology"
    by blast
  show "\<exists>s'. handleSendMessage message outcome s = Some s'
              \<and> take (Suc (length (chatMessages s))) (chatMessages s')
                    = chatMessages s @ [mkMessage user message]
              \<and> \<not> isBotLoading s'
              \<and> ((outcome = SendThrows \<or> (\<exists>cs. outcome = Streams cs Throws)) \<longrightarrow>
                    last (chatMessages s')
                      = mkMessage model connectionApology)"
    using r f by auto
qed

text \<open>Claim C4 as stated fails after a failed initialisation: no user message is
  appended.\<close>

theorem send_without_session_counterexample:
  "chatMessages chat_inert = [mkMessage model (js ''Sorry, the chatbot could not be started.'')]
   \<and> handleSendMessage (js ''hi'') (Streams sample_chunks Completes) chat_inert = Some chat_inert"
  by (simp add: chat_inert_def initChat_def chat_initial_def handleSendMessage_def)

text \<open>The theorem at the inert chat and at the ready chat, for a rejected request.\<close>

theorem send_appends_user_and_recovers_witness:
  "chatSession chat_inert = None
   \<and> handleSendMessage (js ''hi'') SendThrows chat_inert = Some chat_inert
   \<and> chatSession chat_ready \<noteq> None
   \<and> handleSendMessage (js ''hi'') SendThrows chat_ready =
       Some (chat_ready\<lparr>chatMessages := chatMessages chat_ready @
               [mkMessage user (js ''hi''),
                mkMessage model connectionApology],
             isBotLoading := False\<rparr>)"
proof -
  have a: "chatSession chat_inert = None"
    by (simp add: chat_inert_def initChat_def chat_initial_def)
  have b: "chatSession chat_ready \<noteq> None"
    by (simp add: chat_ready_def initChat_def)
  have c: "handleSendMessage (js ''hi'') SendThrows chat_ready =
       Some (chat_ready\<lparr>chatMessages := chatMessages chat_ready @
               [mkMessage user (js ''hi''),
                mkMessage model connectionApology],
             isBotLoading := False\<rparr>)"
    using b by (auto simp: handleSendMessage_def sendBegin_def catchChatError_def finallyChat_def)
  from send_appends_user_and_recovers [of chat_inert "js ''hi''" SendThrows] a
  have "handleSendMessage (js ''hi'') SendThrows chat_inert = Some chat_inert" by blast
  moreover
  from send_appends_user_and_recovers [of chat_ready "js ''hi''" SendThrows] b
  have "\<exists>s'. handleSendMessage (js ''hi'') SendThrows chat_ready = Some s'
          \<and> last (chatMessages s') = mkMessage model connectionApology"
    by blast
  ultimately show ?thesis using a b c by simp
qed

section \<open>Translation\<close>

lemma translateTexts_length:
  "length (translateTexts parse response texts) = length texts"
  by (simp add: translateTexts_def split: option.splits parsed.splits)

lemma translateTexts_fails:
  "translationFails parse response texts \<Longrightarrow> translateTexts parse response texts = texts"
  by (auto simp: translateTexts_def translationFails_def split: option.splits parsed.splits)

lemma applyTranslations_spec:
  assumes "distinct indices" and "\<forall>i\<in>set indices. i < length msgs"
    and "length ts = length indices"
  shows "\<exists>new. applyTranslations lang indices ts msgs = Some new
           \<and> length new = length msgs
           \<and> (\<forall>j<length indices.
                 new ! (indices ! j) = updateMessage lang (ts ! j) (msgs ! (indices ! j)))
           \<and> (\<forall>i. i \<notin> set indices \<longrightarrow> new ! i = msgs ! i)"
  using assms
proof (induction indices arbitrary: ts msgs)
  case Nil
  then show ?case by simp
next
  case (Cons i rest)
  then obtain t ts' where ts: "ts = t # ts'" by (cases ts) auto
  let ?msgs1 = "msgs[i := updateMessage lang t (msgs ! i)]"
  have il: "i < length msgs" using Cons.prems(2) by simp
  have d: "distinct rest" and ni: "i \<notin> set rest" using Cons.prems(1) by simp_all
  have b: "\<forall>k\<in>set rest. k < length ?msgs1" using Cons.prems(2) by simp
  have l: "length ts' = length rest" using Cons.prems(3) ts by simp
  from Cons.IH [OF d b l]
  obtain new where n1: "applyTranslations lang rest ts' ?msgs1 = Some new"
    and n2: "length new = length ?msgs1"
    and n3: "\<forall>j<length rest. new ! (rest ! j) = updateMessage lang (ts' ! j) (?msgs1 ! (rest ! j))"
    and n4: "\<forall>k. k \<notin> set rest \<longrightarrow> new ! k = ?msgs1 ! k"
    by blast
  have r: "applyTranslations lang (i # rest) ts msgs = Some new"
    using il n1 by (simp add: ts)
  have p3: "new ! ((i # rest) ! j) = updateMessage lang (ts ! j) (msgs ! ((i # rest) ! j))"
    if "j < length (i # rest)" for j
  proof (cases j)
    case 0
    then show ?thesis using n4 ni il by (simp add: ts)
  next
    case (Suc j')
    then have j': "j' < length rest" using that by simp
    then have "rest ! j' \<noteq> i" using ni by (metis nth_mem)
    then show ?thesis using n3 j' Suc by (simp add: ts)
  qed
  have p4: "new ! k = msgs ! k" if "k \<notin> set (i # rest)" for k
    using that n4 by simp
  show ?case using r n2 p3 p4 by auto
qed

lemma indices_distinct: "distinct (indicesToTranslate lang messages)"
  by (simp add: indicesToTranslate_def)

lemma indices_bounded: "\<forall>i\<in>set (indicesToTranslate lang messages). i < length messages"
  by (simp add: indicesToTranslate_def)

lemma indices_member:
  "i \<in> set (indicesToTranslate lang messages) \<longleftrightarrow> i < length messages \<and> needsTranslation lang (messages ! i)"
  by (auto simp: indicesToTranslate_def)

text \<open>What one pass does, when it is not skipped.\<close>

lemma doTranslate_pass:
  assumes "lang \<noteq> js ''en''" and "findLanguage lang = Some nm"
  shows "\<exists>ts. ts = translateTexts parse response
                   (map (\<lambda>i. msg_text (messages ! i)) (indicesToTranslate lang messages))
     \<and> length ts = length (indicesToTranslate lang messages)
     \<and> length (doTranslate parse lang True response messages) = length messages
     \<and> (\<forall>j<length (indicesToTranslate lang messages).
          doTranslate parse lang True response messages ! (indicesToTranslate lang messages ! j)
            = updateMessage lang (ts ! j) (messages ! (indicesToTranslate lang messages ! j)))
     \<and> (\<forall>i. i \<notin> set (indicesToTranslate lang messages) \<longrightarrow>
          doTranslate parse lang True response messages ! i = messages ! i)"
proof -
  define indices where "indices = indicesToTranslate lang messages"
  define ts where "ts = translateTexts parse response (map (\<lambda>i. msg_text (messages ! i)) indices)"
  define result where "result = doTranslate parse lang True response messages"
  have lt: "length ts = length indices"
    by (simp add: ts_def translateTexts_length)
  from applyTranslations_spec [of indices messages ts lang]
  obtain new where n1: "applyTranslations lang indices ts messages = Some new"
    and n2: "length new = length messages"
    and n3: "\<forall>j<length indices. new ! (indices ! j) = updateMessage lang (ts ! j) (messages ! (indices ! j))"
    and n4: "\<forall>i. i \<notin> set indices \<longrightarrow> new ! i = messages ! i"
    using lt indices_distinct indices_bounded unfolding indices_def by blast
  have "result = (if length messages = 0 \<or> length indices = 0 then messages else new)"
    using assms n1
    by (simp add: result_def doTranslate_def Let_def indices_def [symmetric] ts_def [symmetric])
  moreover have "new = messages" if "length messages = 0 \<or> length indices = 0"
  proof (rule nth_equalityI)
    show "length new = length messages" by (rule n2)
    fix i assume "i < length new"
    from that have "indices = []" by (auto simp: indices_def indicesToTranslate_def)
    then show "new ! i = messages ! i" using n4 by simp
  qed
  ultimately have "result = new" by auto
  then have "length ts = length indices \<and> length result = length messages
     \<and> (\<forall>j<length indices. result ! (indices ! j) = updateMessage lang (ts ! j) (messages ! (indices ! j)))
     \<and> (\<forall>i. i \<notin> set indices \<longrightarrow> result ! i = messages ! i)"
    using lt n2 n3 n4 by simp
  then show ?thesis
    unfolding result_def ts_def indices_def by blast
qed

lemma updateMessage_lookup:
  "lookupTranslation lang (updateMessage lang t m) =
     (if t \<noteq> [] \<and> t \<noteq> msg_text m then Some t else lookupTranslation lang m)"
  by (simp add: updateMessage_def lookupTranslation_def setTranslation_def)

lemma updateMessage_text: "msg_text (updateMessage lang t m) = msg_text m"
  by (simp add: updateMessage_def setTranslation_def)

lemma updateMessage_needs:
  "needsTranslation lang m \<Longrightarrow>
   needsTranslation lang (updateMessage lang t m) = (t = [] \<or> t = msg_text m)"
  by (auto simp: needsTranslation_def updateMessage_lookup split: option.splits)

text \<open>
  Claim C10. In a pass of the chat translation that is not skipped, take the \<open>j\<close>-th
  message that needs a translation for the language, and the \<open>j\<close>-th text \<open>t\<close> that
  \<^verbatim>\<open>translateTexts\<close> returns. Its text stays as it was; its entry for the language
  becomes \<open>t\<close> exactly when \<open>t\<close> is not empty and differs from the text of the message,
  and otherwise stays as it was (absent or empty); so the message is among those the next
  pass finds in need of a translation exactly when \<open>t\<close> is empty or equal to its text.
  The messages that needed no translation are not touched.
\<close>

theorem chat_translation_stores_only_changed:
  assumes "lang \<noteq> js ''en''" and "findLanguage lang \<noteq> None"
    and "j < length (indicesToTranslate lang messages)"
  shows "let indices = indicesToTranslate lang messages;
             i = indices ! j;
             t = translateTexts parse response (map (\<lambda>i. msg_text (messages ! i)) indices) ! j;
             result = doTranslate parse lang True response messages
         in i < length messages \<and> needsTranslation lang (messages ! i)
            \<and> length result = length messages
            \<and> msg_text (result ! i) = msg_text (messages ! i)
            \<and> lookupTranslation lang (result ! i) =
                 (if t \<noteq> [] \<and> t \<noteq> msg_text (messages ! i) then Some t
                  else lookupTranslation lang (messages ! i))
            \<and> (i \<in> set (indicesToTranslate lang result)) = (t = [] \<or> t = msg_text (messages ! i))
            \<and> (\<forall>k. k \<notin> set indices \<longrightarrow> result ! k = messages ! k)"
proof -
  define indices where "indices = indicesToTranslate lang messages"
  define i where "i = indices ! j"
  define ts where "ts = translateTexts parse response (map (\<lambda>i. msg_text (messages ! i)) indices)"
  define result where "result = doTranslate parse lang True response messages"
  obtain nm where nm: "findLanguage lang = Some nm" using assms(2) by auto
  have j: "j < length indices" using assms(3) by (simp add: indices_def)
  then have mem: "i \<in> set indices" by (simp add: i_def)
  then have il: "i < length messages" and need: "needsTranslation lang (messages ! i)"
    by (simp_all add: indices_def indices_member)
  from doTranslate_pass [OF assms(1) nm, of parse response messages]
  have len: "length result = length messages"
    and upd: "\<forall>j<length indices. result ! (indices ! j) = updateMessage lang (ts ! j) (messages ! (indices ! j))"
    and rest: "\<forall>k. k \<notin> set indices \<longrightarrow> result ! k = messages ! k"
    unfolding result_def ts_def indices_def by blast+
  have ri: "result ! i = updateMessage lang (ts ! j) (messages ! i)"
    using upd j by (simp add: i_def)
  have "(i \<in> set (indicesToTranslate lang result)) = needsTranslation lang (result ! i)"
    using il len by (simp add: indices_member)
  also have "\<dots> = (ts ! j = [] \<or> ts ! j = msg_text (messages ! i))"
    unfolding ri using need by (rule updateMessage_needs)
  finally have still: "(i \<in> set (indicesToTranslate lang result))
                         = (ts ! j = [] \<or> ts ! j = msg_text (messages ! i))" .
  have "i < length messages \<and> needsTranslation lang (messages ! i)
            \<and> length result = length messages
            \<and> msg_text (result ! i) = msg_text (messages ! i)
            \<and> lookupTranslation lang (result ! i) =
                 (if ts ! j \<noteq> [] \<and> ts ! j \<noteq> msg_text (messages ! i) then Some (ts ! j)
                  else lookupTranslation lang (messages ! i))
            \<and> (i \<in> set (indicesToTranslate lang result)) = (ts ! j = [] \<or> ts ! j = msg_text (messages ! i))
            \<and> (\<forall>k. k \<notin> set indices \<longrightarrow> result ! k = messages ! k)"
    using il need len still rest
    by (simp add: ri updateMessage_text updateMessage_lookup)
  then show ?thesis
    unfolding Let_def result_def ts_def i_def indices_def .
qed

lemma es_indices: "indicesToTranslate (js ''es'') es_messages = [0, 1]"
  by (simp add: indicesToTranslate_def es_messages_def needsTranslation_def lookupTranslation_def
        mkMessage_def upt_rec)

lemma es_texts: "translateTexts parse_two (Some (js ''ok'')) [js ''Hello'', js ''Taco''] = [js ''Hola'', js ''Taco'']"
  by (simp add: translateTexts_def parse_two_def)

lemma es_pass:
  "doTranslate parse_two (js ''es'') True (Some (js ''ok'')) es_messages =
     [setTranslation (js ''es'') (js ''Hola'') (mkMessage user (js ''Hello'')), mkMessage model (js ''Taco'')]"
  by (simp add: doTranslate_def es_indices findLanguage_def TRANSLATION_LANGUAGES_def Let_def)
     (simp add: es_messages_def es_texts updateMessage_def mkMessage_def)

text \<open>The theorem at two messages and the answer \<open>[Hola, Taco]\<close>: the first gets its
  entry, the second (returned unchanged) gets none and is pending again.\<close>

theorem chat_translation_stores_only_changed_witness:
  "js ''es'' \<noteq> js ''en'' \<and> findLanguage (js ''es'') \<noteq> None
   \<and> 1 < length (indicesToTranslate (js ''es'') es_messages)
   \<and> lookupTranslation (js ''es'') (doTranslate parse_two (js ''es'') True (Some (js ''ok'')) es_messages ! 1) = None
   \<and> 1 \<in> set (indicesToTranslate (js ''es'') (doTranslate parse_two (js ''es'') True (Some (js ''ok'')) es_messages))
   \<and> lookupTranslation (js ''es'') (doTranslate parse_two (js ''es'') True (Some (js ''ok'')) es_messages ! 0)
        = Some (js ''Hola'')"
proof -
  have a: "js ''es'' \<noteq> js ''en''" by simp
  have b: "findLanguage (js ''es'') \<noteq> None"
    by (simp add: findLanguage_def TRANSLATION_LANGUAGES_def)
  have c1: "1 < length (indicesToTranslate (js ''es'') es_messages)" by (simp add: es_indices)
  have c0: "0 < length (indicesToTranslate (js ''es'') es_messages)" by (simp add: es_indices)
  note t1 = chat_translation_stores_only_changed [OF a b c1, of parse_two "Some (js ''ok'')"]
  note t0 = chat_translation_stores_only_changed [OF a b c0, of parse_two "Some (js ''ok'')"]
  have m: "map (\<lambda>i. msg_text (es_messages ! i)) [0, 1] = [js ''Hello'', js ''Taco'']"
    by (simp add: es_messages_def mkMessage_def)
  have x1: "lookupTranslation (js ''es'') (doTranslate parse_two (js ''es'') True (Some (js ''ok'')) es_messages ! 1) = None
     \<and> 1 \<in> set (indicesToTranslate (js ''es'') (doTranslate parse_two (js ''es'') True (Some (js ''ok'')) es_messages))"
    using t1 unfolding Let_def es_indices m es_texts
    by (simp add: es_messages_def mkMessage_def lookupTranslation_def)
  have x0: "lookupTranslation (js ''es'') (doTranslate parse_two (js ''es'') True (Some (js ''ok'')) es_messages ! 0)
        = Some (js ''Hola'')"
    using t0 unfolding Let_def es_indices m es_texts
    by (simp add: es_messages_def mkMessage_def)
  show ?thesis using a b c1 x1 x0 by blast
qed

text \<open>A skipped pass and a failed request leave the chat messages as they were.\<close>

lemma doTranslate_skipped:
  "lang = js ''en'' \<or> \<not> isOpen \<or> findLanguage lang = None \<or> messages = [] \<Longrightarrow>
   doTranslate parse lang isOpen response messages = messages"
  by (auto simp: doTranslate_def Let_def)

lemma updateMessage_same: "updateMessage lang (msg_text m) m = m"
  by (simp add: updateMessage_def)

lemma doTranslate_failure_unchanged:
  assumes "translationFails parse response
             (map (\<lambda>i. msg_text (messages ! i)) (indicesToTranslate lang messages))"
  shows "doTranslate parse lang isOpen response messages = messages"
proof (cases "lang = js ''en'' \<or> \<not> isOpen \<or> findLanguage lang = None \<or> messages = []")
  case True
  then show ?thesis by (rule doTranslate_skipped)
next
  case False
  then obtain nm where en: "lang \<noteq> js ''en''" and nm: "findLanguage lang = Some nm"
    and op: "isOpen" by auto
  define indices where "indices = indicesToTranslate lang messages"
  define result where "result = doTranslate parse lang True response messages"
  have ts: "translateTexts parse response (map (\<lambda>i. msg_text (messages ! i)) indices)
              = map (\<lambda>i. msg_text (messages ! i)) indices"
    using assms unfolding indices_def by (rule translateTexts_fails)
  from doTranslate_pass [OF en nm, of parse response messages]
  have len: "length result = length messages"
    and upd: "\<forall>j<length indices. result ! (indices ! j)
                = updateMessage lang (map (\<lambda>i. msg_text (messages ! i)) indices ! j)
                    (messages ! (indices ! j))"
    and rest: "\<forall>k. k \<notin> set indices \<longrightarrow> result ! k = messages ! k"
    unfolding result_def indices_def [symmetric] ts by blast+
  have "result = messages"
  proof (rule nth_equalityI)
    show "length result = length messages" by (rule len)
    fix k assume "k < length result"
    show "result ! k = messages ! k"
    proof (cases "k \<in> set indices")
      case True
      then obtain j where j: "j < length indices" and k: "k = indices ! j"
        by (auto simp: in_set_conv_nth)
      then show ?thesis using upd by (simp add: updateMessage_same)
    next
      case False
      then show ?thesis using rest by simp
    qed
  qed
  then show ?thesis using op by (simp add: result_def)
qed

text \<open>Scenario 4: two pending messages, one translated item returned.\<close>

lemma doTranslate_one_fewer:
  "doTranslate parse_one (js ''es'') True (Some (js ''ok'')) es_messages = es_messages"
proof (rule doTranslate_failure_unchanged)
  show "translationFails parse_one (Some (js ''ok''))
          (map (\<lambda>i. msg_text (es_messages ! i)) (indicesToTranslate (js ''es'') es_messages))"
    by (simp add: translationFails_def parse_one_def es_indices)
qed

lemma translatedName_originals:
  "map (translatedName (map ing_name ings)) (zip ings [0..<length ings]) = ings"
  by (rule nth_equalityI) (simp_all add: translatedName_def)

text \<open>
  Claim C2, where the recipe view breaks it. When the recipe view translates a recipe
  into a language it has no entry for and both requests fail, \<^verbatim>\<open>handleTranslation\<close>
  still writes a cache entry for that language; the entry holds the source-language
  ingredients and instructions, and every later pass for the language finds it and
  leaves the state as it is, whatever the service would answer then.
\<close>

theorem handleTranslation_caches_failed_translation:
  assumes "selectedLanguage st \<noteq> js ''en''" and "findLanguage (selectedLanguage st) \<noteq> None"
    and "translatedContent st (selectedLanguage st) = None"
    and "translationFails parse response1 (map ing_name (ingredients recipe))"
    and "translationFails parse response2 (instructions recipe)"
  shows "translatedContent (handleTranslation parse recipe response1 response2 st) (selectedLanguage st)
           = Some \<lparr>tr_ingredients = ingredients recipe, tr_instructions = instructions recipe\<rparr>
     \<and> handleTranslation parse' recipe response1' response2'
           (handleTranslation parse recipe response1 response2 st)
         = handleTranslation parse recipe response1 response2 st"
proof -
  obtain nm where nm: "findLanguage (selectedLanguage st) = Some nm" using assms(2) by auto
  have r: "handleTranslation parse recipe response1 response2 st =
             st\<lparr>translatedContent := (translatedContent st)(selectedLanguage st \<mapsto>
                   \<lparr>tr_ingredients = ingredients recipe, tr_instructions = instructions recipe\<rparr>),
                isTranslating := False\<rparr>"
    using assms(1,3) nm
    by (simp add: handleTranslation_def Let_def translateTexts_fails [OF assms(4)]
          translateTexts_fails [OF assms(5)] translatedName_originals)
  show ?thesis
    unfolding r by (simp add: handleTranslation_def)
qed

text \<open>The theorem at the soup, Spanish, an object as the first answer and a rejected
  second request.\<close>

theorem handleTranslation_caches_failed_translation_witness:
  "selectedLanguage es_state \<noteq> js ''en'' \<and> findLanguage (selectedLanguage es_state) \<noteq> None
   \<and> translatedContent es_state (selectedLanguage es_state) = None
   \<and> translationFails (parse_object :: jsstring json_parse) (Some (js ''{}''))
         (map ing_name (ingredients soup))
   \<and> translationFails (parse_object :: jsstring json_parse) None (instructions soup)
   \<and> translatedContent (handleTranslation parse_object soup (Some (js ''{}'')) None es_state) (js ''es'')
       = Some \<lparr>tr_ingredients = ingredients soup, tr_instructions = instructions soup\<rparr>
   \<and> displayedInstructions soup (handleTranslation parse_object soup (Some (js ''{}'')) None es_state)
       = [js ''Chop'', js ''Boil'']"
proof -
  have a: "selectedLanguage es_state \<noteq> js ''en''" by (simp add: es_state_def)
  have b: "findLanguage (selectedLanguage es_state) \<noteq> None"
    by (simp add: es_state_def findLanguage_def TRANSLATION_LANGUAGES_def)
  have c: "translatedContent es_state (selectedLanguage es_state) = None"
    by (simp add: es_state_def)
  have d: "translationFails (parse_object :: jsstring json_parse) (Some (js ''{}''))
             (map ing_name (ingredients soup))"
    by (simp add: translationFails_def parse_object_def stripFence_def trim_def is_space_def)
  have e: "translationFails (parse_object :: jsstring json_parse) None (instructions soup)"
    by (simp add: translationFails_def)
  have l: "selectedLanguage es_state = js ''es''" by (simp add: es_state_def)
  from handleTranslation_caches_failed_translation [OF a b c d e]
  have f: "translatedContent (handleTranslation parse_object soup (Some (js ''{}'')) None es_state) (js ''es'')
       = Some \<lparr>tr_ingredients = ingredients soup, tr_instructions = instructions soup\<rparr>"
    unfolding l by blast
  have sl: "selectedLanguage (handleTranslation parse_object soup (Some (js ''{}'')) None es_state) = js ''es''"
    by (simp add: handleTranslation_def es_state_def Let_def split: option.splits)
  have g: "displayedInstructions soup (handleTranslation parse_object soup (Some (js ''{}'')) None es_state)
       = [js ''Chop'', js ''Boil'']"
    by (simp add: displayedInstructions_def sl f) (simp add: soup_def)
  show ?thesis using a b c d e f g by blast
qed

text \<open>When only the request for the ingredient names fails, the entry mixes
  source-language ingredients with whatever the other request gave.\<close>

lemma handleTranslation_partial_entry:
  assumes "selectedLanguage st \<noteq> js ''en''" and "findLanguage (selectedLanguage st) \<noteq> None"
    and "translatedContent st (selectedLanguage st) = None"
    and "translationFails parse response1 (map ing_name (ingredients recipe))"
  shows "translatedContent (handleTranslation parse recipe response1 response2 st) (selectedLanguage st)
           = Some \<lparr>tr_ingredients = ingredients recipe,
                   tr_instructions = translateTexts parse response2 (instructions recipe)\<rparr>"
proof -
  obtain nm where nm: "findLanguage (selectedLanguage st) = Some nm" using assms(2) by auto
  show ?thesis
    using assms(1,3) nm
    by (simp add: handleTranslation_def Let_def translateTexts_fails [OF assms(4)]
          translatedName_originals)
qed

section \<open>AI response parsing\<close>











text \<open>White space around the fence and inside it is removed, also a byte order mark and
  a no-break space.\<close>

lemma stripFence_padded:
  "stripFence ([0xFEFF] @ js ''```json'' @ [0x0A] @ js ''[]'' @ [0x0A] @ js ''```'' @ [0xA0]) = js ''[]''"
  by (simp add: stripFence_def trim_def is_space_def slice_neg_end_def js_def)


text \<open>A payload in brackets goes to the parser: its array is returned, and a text it
  rejects gives the error about the format.\<close>

lemma analyze_bracketed:
  assumes "t \<noteq> []"
    and "startsWith (stripFence t) (js ''['')" and "endsWith (stripFence t) (js '']'')"
  shows "parse (stripFence t) = Some v \<Longrightarrow>
           analyzeFridgeAndSuggestRecipes hostLower parse (Responds (Some t)) = Inr v"
    and "parse (stripFence t) = None \<Longrightarrow>
           \<exists>msg. analyzeFridgeAndSuggestRecipes hostLower parse (Responds (Some t)) = Inl msg"
  using assms by (simp_all add: analyzeFridgeAndSuggestRecipes_def analyze_try_def Let_def)

end
